theory Spec2Isabelle
  imports Main "HOL-Library.AList"
begin

section \<open>JavaScript values and plain objects\<close>

text \<open>
  Everything the service stores or receives as a request body is the result of
  \<^verbatim>\<open>JSON.parse\<close>. Numbers are never inspected by the code except for
  truthiness, so they are kept as integers. An object is the list of its own
  properties in insertion order (the property names of one object are distinct).
\<close>

datatype json =
    JNull
  | JBool bool
  | JNum int
  | JStr string
  | JArr "json list"
  | JObj "(string \<times> json) list"

text \<open>
  A JavaScript value as the code sees it: \<open>None\<close> is \<^verbatim>\<open>undefined\<close>,
  the value a missing property reads as and the store's absent marker.
\<close>

type_synonym jsval = "json option"

datatype err = TypeError string | EngineError string

text \<open>
  How a call of a store operation ends. It hands back a promise, which
  resolves or rejects; or it throws before it hands one back; or an exception
  escapes from one of its callbacks with nothing to catch it, which ends the
  process before any callback of the promise runs.
\<close>

datatype 'a promise = Resolved 'a | Rejected err | Threw err | Died err

text \<open>Truthiness, as tested by \<^verbatim>\<open>if (x)\<close> and \<^verbatim>\<open>x && y\<close>.\<close>

fun truthy :: "jsval \<Rightarrow> bool" where
  "truthy None = False"
| "truthy (Some JNull) = False"
| "truthy (Some (JBool b)) = b"
| "truthy (Some (JNum n)) = (n \<noteq> 0)"
| "truthy (Some (JStr s)) = (s \<noteq> [])"
| "truthy (Some (JArr xs)) = True"
| "truthy (Some (JObj ps)) = True"

text \<open>
  \<^verbatim>\<open>'' + x\<close>, the coercion to a string. An object is asked for its
  \<^verbatim>\<open>valueOf\<close> and then its \<^verbatim>\<open>toString\<close>. The inherited
  \<^verbatim>\<open>valueOf\<close> gives the object back, so \<^verbatim>\<open>toString\<close> decides: a parsed
  object that owns a property of that name has something there that cannot be
  called, and the coercion throws a TypeError. An array joins the strings of its
  elements, so it throws when one of them does. Everything else has a string.
\<close>

fun string_of_throws :: "json \<Rightarrow> bool" where
  "string_of_throws (JObj ps) = (''toString'' \<in> set (map fst ps))"
| "string_of_throws (JArr xs) = list_ex string_of_throws xs"
| "string_of_throws v = False"

definition coercion_throws :: "jsval \<Rightarrow> bool" where
  "coercion_throws v = (case v of None \<Rightarrow> False | Some j \<Rightarrow> string_of_throws j)"

definition cannot_convert :: err where
  "cannot_convert = TypeError ''Cannot convert object to primitive value''"

text \<open>A Value of the data model: a JSON array or object.\<close>

fun is_value :: "json \<Rightarrow> bool" where
  "is_value (JArr xs) = True"
| "is_value (JObj ps) = True"
| "is_value v = False"

text \<open>
  \<^verbatim>\<open>x.name\<close> on a parsed JSON value, for a name that is neither an array index
  nor a member of a built-in prototype (the sources read only \<^verbatim>\<open>.nuke\<close> and
  \<^verbatim>\<open>.value\<close>): an own property of an object, \<^verbatim>\<open>undefined\<close> otherwise.
  Reading a property of \<^verbatim>\<open>null\<close> throws; each caller guards that case itself.
\<close>

fun prop_get :: "json \<Rightarrow> string \<Rightarrow> jsval" where
  "prop_get (JObj ps) name = map_of ps name"
| "prop_get v name = None"

text \<open>
  A plain object built by the code with \<^verbatim>\<open>{}\<close> and filled by assignment:
  its own properties, and its prototype. The prototype starts as
  \<^verbatim>\<open>Object.prototype\<close>; it changes only through the inherited
  \<^verbatim>\<open>__proto__\<close> setter.
\<close>

datatype prototype = ObjectPrototype | ProtoOf json

record jsobject =
  own :: "(string \<times> jsval) list"
  proto :: prototype

definition empty_object :: jsobject where
  "empty_object = \<lparr>own = [], proto = ObjectPrototype\<rparr>"

text \<open>
  \<^verbatim>\<open>name in o\<close>, \<^verbatim>\<open>o[name]\<close>, \<^verbatim>\<open>delete o[name]\<close> and
  \<^verbatim>\<open>Object.keys(o)\<close>. The two reads also walk the prototype chain, but the
  memory store only ever reads names that begin with \<^verbatim>\<open>key_\<close>, which no
  built-in prototype defines, and the prototype of \<^verbatim>\<open>store\<close> is never
  replaced, so the own properties decide.
\<close>

definition obj_has :: "jsobject \<Rightarrow> string \<Rightarrow> bool" where
  "obj_has ob name = (name \<in> set (map fst (own ob)))"

definition obj_get :: "jsobject \<Rightarrow> string \<Rightarrow> jsval" where
  "obj_get ob name = (case map_of (own ob) name of None \<Rightarrow> None | Some v \<Rightarrow> v)"

definition obj_delete :: "jsobject \<Rightarrow> string \<Rightarrow> jsobject" where
  "obj_delete ob name = ob\<lparr>own := AList.delete name (own ob)\<rparr>"

definition obj_keys :: "jsobject \<Rightarrow> string list" where
  "obj_keys ob = map fst (own ob)"

text \<open>
  \<^verbatim>\<open>o[name] = v\<close>. For every name but one this creates or overwrites an own
  property. The name \<^verbatim>\<open>__proto__\<close> is an accessor inherited from
  \<^verbatim>\<open>Object.prototype\<close>: while that accessor is what the lookup finds, the
  assignment runs its setter, which replaces the prototype of the object when \<open>v\<close>
  is an object, an array or \<^verbatim>\<open>null\<close>, does nothing for any other \<open>v\<close>, and
  in neither case creates an own property. The accessor is no longer found once
  the object has an own property of that name, or its prototype is \<^verbatim>\<open>null\<close>, or
  its prototype is a parsed object that itself owns a property of that name.
\<close>

definition setter_visible :: "jsobject \<Rightarrow> bool" where
  "setter_visible ob =
     (\<not> obj_has ob ''__proto__'' \<and>
      (case proto ob of
         ObjectPrototype \<Rightarrow> True
       | ProtoOf JNull \<Rightarrow> False
       | ProtoOf (JObj ps) \<Rightarrow> ''__proto__'' \<notin> set (map fst ps)
       | ProtoOf v \<Rightarrow> True))"

definition obj_assign :: "jsobject \<Rightarrow> string \<Rightarrow> jsval \<Rightarrow> jsobject" where
  "obj_assign ob name v =
     (if name = ''__proto__'' \<and> setter_visible ob then
        (case v of
           Some (JObj ps) \<Rightarrow> ob\<lparr>proto := ProtoOf (JObj ps)\<rparr>
         | Some (JArr xs) \<Rightarrow> ob\<lparr>proto := ProtoOf (JArr xs)\<rparr>
         | Some JNull \<Rightarrow> ob\<lparr>proto := ProtoOf JNull\<rparr>
         | _ \<Rightarrow> ob)
      else ob\<lparr>own := AList.update name v (own ob)\<rparr>)"

text \<open>
  What \<^verbatim>\<open>JSON.stringify\<close> (and so \<^verbatim>\<open>res.send\<close>) keeps of such an object:
  its own properties whose value is not \<^verbatim>\<open>undefined\<close>. The prototype is not
  serialised.
\<close>

fun defined_props :: "(string \<times> jsval) list \<Rightarrow> (string \<times> json) list" where
  "defined_props [] = []"
| "defined_props ((k, None) # ps) = defined_props ps"
| "defined_props ((k, Some v) # ps) = (k, v) # defined_props ps"

definition to_json :: "jsobject \<Rightarrow> json" where
  "to_json ob = JObj (defined_props (own ob))"

section \<open>The memory store (stores/memory.js)\<close>

text \<open>
  The closure variable \<^verbatim>\<open>store\<close> is the state. Every operation returns
  how the call ends together with the new state. The arguments of the logging
  calls are evaluated whatever the log level: \<open>get\<close> builds
  \<^verbatim>\<open>'' + store[key]\<close> before it returns, and \<open>upsert\<close> builds
  \<^verbatim>\<open>'' + value\<close> after the assignment, so either throws when that coercion
  does, \<open>upsert\<close> with the value already stored.
\<close>

definition KEY_PREFIX :: string where
  "KEY_PREFIX = ''key_''"

definition prepKey :: "string \<Rightarrow> string" where
  "prepKey key = KEY_PREFIX @ key"

definition mem_init :: jsobject where
  "mem_init = empty_object"

definition mem_nuke :: "jsobject \<Rightarrow> unit promise \<times> jsobject" where
  "mem_nuke store = (Resolved (), empty_object)"

definition mem_getAll :: "jsobject \<Rightarrow> jsobject promise \<times> jsobject" where
  "mem_getAll store =
     (Resolved
        (foldl (\<lambda>all prop. obj_assign all (drop (length KEY_PREFIX) prop) (obj_get store prop))
           empty_object (obj_keys store)),
      store)"

definition mem_get :: "string \<Rightarrow> jsobject \<Rightarrow> jsval promise \<times> jsobject" where
  "mem_get key store =
     (if coercion_throws (obj_get store (prepKey key)) then Threw cannot_convert
      else Resolved (obj_get store (prepKey key)),
      store)"

definition mem_upsert :: "string \<Rightarrow> jsval \<Rightarrow> jsobject \<Rightarrow> nat promise \<times> jsobject" where
  "mem_upsert key v store =
     (if coercion_throws v then Threw cannot_convert else Resolved 1,
      obj_assign store (prepKey key) v)"

definition mem_delete :: "string \<Rightarrow> jsobject \<Rightarrow> nat promise \<times> jsobject" where
  "mem_delete key store =
     (if obj_has store (prepKey key)
      then (Resolved 1, obj_delete store (prepKey key))
      else (Resolved 0, store))"

text \<open>A sequential run of store calls, for statements about what holds "until" a later call.\<close>

datatype mem_op = Upsert string jsval | Delete string | Nuke | Get string | GetAll

fun mem_step :: "mem_op \<Rightarrow> jsobject \<Rightarrow> jsobject" where
  "mem_step (Upsert k v) s = snd (mem_upsert k v s)"
| "mem_step (Delete k) s = snd (mem_delete k s)"
| "mem_step Nuke s = snd (mem_nuke s)"
| "mem_step (Get k) s = snd (mem_get k s)"
| "mem_step GetAll s = snd (mem_getAll s)"

fun mem_run :: "mem_op list \<Rightarrow> jsobject \<Rightarrow> jsobject" where
  "mem_run [] s = s"
| "mem_run (x # xs) s = mem_run xs (mem_step x s)"



section \<open>The Postgres store (stores/postgres.js, stores/pg_init.sql)\<close>

text \<open>
  The table \<^verbatim>\<open>KVS (key VARCHAR(1024) PRIMARY KEY, value JSON)\<close> is a list of
  rows, a key and the JSON document of its value column. The pool and the engine
  are the environment: \<open>fault\<close> says whether \<^verbatim>\<open>pg.connect\<close> or
  \<^verbatim>\<open>client.query\<close> reports an error on a call.
\<close>

datatype fault = Healthy | ConnectFails err | QueryFails err

record pg_world =
  kvs :: "(string \<times> json) list"
  fault :: fault

record pg_row =
  row_key :: string
  row_value :: json

record pg_result =
  rows :: "pg_row list"
  rowCount :: nat

text \<open>The five statements the module sends, with their parameters.\<close>

datatype sql =
    DeleteAll
  | SelectAll
  | SelectValue string
  | SelectUpsert string json
  | DeleteWhere string

text \<open>
  Storing a string into the \<^verbatim>\<open>VARCHAR(1024)\<close> key column: a longer string is
  an error, unless the excess characters are all spaces, in which case it is cut
  to 1024 characters.
\<close>

definition to_varchar_1024 :: "string \<Rightarrow> string option" where
  "to_varchar_1024 k =
     (if length k \<le> 1024 then Some k
      else if list_all (\<lambda>c. c = CHR '' '') (drop 1024 k) then Some (take 1024 k)
      else None)"

text \<open>
  \<^verbatim>\<open>INSERT INTO KVS (key, value) VALUES ($1, $2)\<close>: \<open>None\<close> is the exception
  (an over-long key, or a key already in the table).
\<close>

definition sql_insert :: "string \<Rightarrow> json \<Rightarrow> (string \<times> json) list \<Rightarrow> (string \<times> json) list option" where
  "sql_insert k d t =
     (case to_varchar_1024 k of
        None \<Rightarrow> None
      | Some k' \<Rightarrow> if k' \<in> set (map fst t) then None else Some (t @ [(k', d)]))"

text \<open>\<^verbatim>\<open>UPDATE KVS SET value = $2 WHERE key = $1\<close>.\<close>

definition sql_update :: "string \<Rightarrow> json \<Rightarrow> (string \<times> json) list \<Rightarrow> (string \<times> json) list" where
  "sql_update k d t = map (\<lambda>(k', d'). if k' = k then (k', d) else (k', d')) t"

text \<open>
  The plpgsql function \<^verbatim>\<open>upsert\<close> of pg_init.sql: try the insert, and on any
  exception update instead.
\<close>

definition upsert_fn :: "string \<Rightarrow> json \<Rightarrow> (string \<times> json) list \<Rightarrow> (string \<times> json) list" where
  "upsert_fn k d t = (case sql_insert k d t of Some t' \<Rightarrow> t' | None \<Rightarrow> sql_update k d t)"

definition as_rows :: "(string \<times> json) list \<Rightarrow> pg_row list" where
  "as_rows t = map (\<lambda>(k, d). \<lparr>row_key = k, row_value = d\<rparr>) t"

text \<open>
  What the engine answers and what it leaves in the table. The rows of
  \<^verbatim>\<open>SELECT VALUE\<close> carry only the value column (their key is never read),
  and the one row of \<^verbatim>\<open>SELECT upsert(...)\<close> holds nothing the module reads.
\<close>

fun exec :: "sql \<Rightarrow> (string \<times> json) list \<Rightarrow> pg_result \<times> (string \<times> json) list" where
  "exec DeleteAll t = (\<lparr>rows = [], rowCount = length t\<rparr>, [])"
| "exec SelectAll t = (\<lparr>rows = as_rows t, rowCount = length t\<rparr>, t)"
| "exec (SelectValue k) t =
     (\<lparr>rows = as_rows (filter (\<lambda>(k', d). k' = k) t),
       rowCount = length (filter (\<lambda>(k', d). k' = k) t)\<rparr>, t)"
| "exec (SelectUpsert k d) t = (\<lparr>rows = [], rowCount = 1\<rparr>, upsert_fn k d t)"
| "exec (DeleteWhere k) t =
     (\<lparr>rows = [], rowCount = length (filter (\<lambda>(k', d). k' = k) t)\<rparr>,
      filter (\<lambda>(k', d). k' \<noteq> k) t)"

text \<open>
  \<^verbatim>\<open>query(sql, params)\<close>. When the engine reports an error the promise
  rejects with it, and otherwise it resolves with the result. When the pool
  reports an error the callback calls \<^verbatim>\<open>reject(err)\<close> and, having no
  \<^verbatim>\<open>return\<close> there, goes on to \<^verbatim>\<open>client.query\<close> on the client it
  did not get: that TypeError escapes from the callback and ends the process.
  A failed statement leaves the table as it was.
\<close>

definition no_client :: err where
  "no_client = TypeError ''Cannot read property query of null''"

definition query :: "sql \<Rightarrow> pg_world \<Rightarrow> pg_result promise \<times> pg_world" where
  "query q w =
     (case fault w of
        ConnectFails e \<Rightarrow> (Died no_client, w)
      | QueryFails e \<Rightarrow> (Rejected e, w)
      | Healthy \<Rightarrow> (case exec q (kvs w) of (result, t') \<Rightarrow> (Resolved result, w\<lparr>kvs := t'\<rparr>)))"

text \<open>
  \<^verbatim>\<open>promise.then(f)\<close> with one callback: a rejection passes through, and a
  callback that throws rejects the new promise. Where there is no promise, or no
  process, the callback does not run.
\<close>

fun and_then :: "'a promise \<times> 's \<Rightarrow> ('a \<Rightarrow> err + 'b) \<Rightarrow> 'b promise \<times> 's" where
  "and_then (Resolved a, s) f = (case f a of Inl e \<Rightarrow> (Rejected e, s) | Inr b \<Rightarrow> (Resolved b, s))"
| "and_then (Rejected e, s) f = (Rejected e, s)"
| "and_then (Threw e, s) f = (Threw e, s)"
| "and_then (Died e, s) f = (Died e, s)"

text \<open>
  The envelope. \<^verbatim>\<open>{"value": value}\<close> reaches the column through
  \<^verbatim>\<open>JSON.stringify\<close>, which leaves out a property whose value is
  \<^verbatim>\<open>undefined\<close>; \<^verbatim>\<open>row.value.value\<close> reads it back, and throws when the
  column holds \<^verbatim>\<open>null\<close>.
\<close>

definition wrap :: "jsval \<Rightarrow> json" where
  "wrap v = (case v of None \<Rightarrow> JObj [] | Some j \<Rightarrow> JObj [(''value'', j)])"

fun unwrap :: "json \<Rightarrow> err + jsval" where
  "unwrap JNull = Inl (TypeError ''Cannot read property value of null'')"
| "unwrap d = Inr (prop_get d ''value'')"

fun collect :: "pg_row list \<Rightarrow> jsobject \<Rightarrow> err + jsobject" where
  "collect [] all = Inr all"
| "collect (row # rs) all =
     (case unwrap (row_value row) of
        Inl e \<Rightarrow> Inl e
      | Inr v \<Rightarrow> collect rs (obj_assign all (row_key row) v))"

definition pg_nuke :: "pg_world \<Rightarrow> pg_result promise \<times> pg_world" where
  "pg_nuke w = query DeleteAll w"

definition pg_getAll :: "pg_world \<Rightarrow> jsobject promise \<times> pg_world" where
  "pg_getAll w = and_then (query SelectAll w) (\<lambda>result. collect (rows result) empty_object)"

definition pg_get :: "string \<Rightarrow> pg_world \<Rightarrow> jsval promise \<times> pg_world" where
  "pg_get key w =
     and_then (query (SelectValue key) w)
       (\<lambda>result. case rows result of [] \<Rightarrow> Inr None | row # rs \<Rightarrow> unwrap (row_value row))"

definition pg_upsert :: "string \<Rightarrow> jsval \<Rightarrow> pg_world \<Rightarrow> pg_result promise \<times> pg_world" where
  "pg_upsert key v w = query (SelectUpsert key (wrap v)) w"

definition pg_delete :: "string \<Rightarrow> pg_world \<Rightarrow> nat promise \<times> pg_world" where
  "pg_delete key w = and_then (query (DeleteWhere key) w) (\<lambda>result. Inr (rowCount result))"

section \<open>The router (key.js)\<close>

text \<open>
  A backing store as the router uses it: five operations on some state, each
  returning a promise. What upsert and nuke resolve to is never looked at.
\<close>

record ('s, 'u, 'n) store_ops =
  st_getAll :: "'s \<Rightarrow> jsobject promise \<times> 's"
  st_get :: "string \<Rightarrow> 's \<Rightarrow> jsval promise \<times> 's"
  st_upsert :: "string \<Rightarrow> jsval \<Rightarrow> 's \<Rightarrow> 'u promise \<times> 's"
  st_delete :: "string \<Rightarrow> 's \<Rightarrow> nat promise \<times> 's"
  st_nuke :: "'s \<Rightarrow> 'n promise \<times> 's"

definition memory_store :: "(jsobject, nat, unit) store_ops" where
  "memory_store =
     \<lparr>st_getAll = mem_getAll, st_get = mem_get, st_upsert = mem_upsert,
      st_delete = mem_delete, st_nuke = mem_nuke\<rparr>"

definition postgres_store :: "(pg_world, pg_result, pg_result) store_ops" where
  "postgres_store =
     \<lparr>st_getAll = pg_getAll, st_get = pg_get, st_upsert = pg_upsert,
      st_delete = pg_delete, st_nuke = pg_nuke\<rparr>"

text \<open>
  A request as a handler receives it from Express and the JSON body parser:
  the decoded \<^verbatim>\<open>:id\<close> path parameter, \<^verbatim>\<open>req.body\<close> as the parser left it,
  and whether \<^verbatim>\<open>req.is('json')\<close> is truthy.
\<close>

record request =
  params_id :: string
  body :: json
  is_json :: bool

record config =
  allowNuke :: jsval

text \<open>
  What a handler does with a request: it sends a response (the status set by
  \<^verbatim>\<open>res.status\<close>, 200 when none is set, and the argument of
  \<^verbatim>\<open>res.send\<close>), or it calls \<^verbatim>\<open>next(err)\<close>, which hands the error to
  Express' error handling, or it throws (the store call threw), or none of
  these: nothing is sent, the request being left without an answer or the
  process having ended. Beside the outcome a handler returns the store calls it
  made and the store's new state. \<open>ErrorPage\<close> is the body Express itself
  writes for an error or for a path no route matches.
\<close>

datatype payload = Text string | Json json | ErrorPage

datatype outcome = Sent nat payload | Next err | Throws err | NoResponse

datatype store_call =
    CallGetAll
  | CallGet string
  | CallUpsert string jsval
  | CallDelete string
  | CallNuke

definition route_get_all ::
  "('s, 'u, 'n) store_ops \<Rightarrow> request \<Rightarrow> 's \<Rightarrow> outcome \<times> store_call list \<times> 's" where
  "route_get_all store req s =
     (case st_getAll store s of
        (Resolved all, s') \<Rightarrow> (Sent 200 (Json (to_json all)), [CallGetAll], s')
      | (Rejected e, s') \<Rightarrow> (NoResponse, [CallGetAll], s')
      | (Threw e, s') \<Rightarrow> (Throws e, [CallGetAll], s')
      | (Died e, s') \<Rightarrow> (NoResponse, [CallGetAll], s'))"

definition route_nuke ::
  "config \<Rightarrow> ('s, 'u, 'n) store_ops \<Rightarrow> request \<Rightarrow> 's \<Rightarrow> outcome \<times> store_call list \<times> 's" where
  "route_nuke cfg store req s =
     (if truthy (allowNuke cfg) \<and> truthy (Some (body req)) \<and> truthy (prop_get (body req) ''nuke'')
      then
        (case st_nuke store s of
           (Resolved u, s') \<Rightarrow> (Sent 200 (Text ''Deleted all keys.''), [CallNuke], s')
         | (Rejected e, s') \<Rightarrow> (Next e, [CallNuke], s')
         | (Threw e, s') \<Rightarrow> (Throws e, [CallNuke], s')
         | (Died e, s') \<Rightarrow> (NoResponse, [CallNuke], s'))
      else
        (Sent 400
           (Text ''Nuking this store is not allowed or you didn't say the magic word (see README).''),
         [], s))"

definition route_get_key ::
  "('s, 'u, 'n) store_ops \<Rightarrow> request \<Rightarrow> 's \<Rightarrow> outcome \<times> store_call list \<times> 's" where
  "route_get_key store req s =
     (let key = params_id req in
      case st_get store key s of
        (Resolved result, s') \<Rightarrow>
          (case result of
             Some v \<Rightarrow> (Sent 200 (Json v), [CallGet key], s')
           | None \<Rightarrow> (Sent 404 (Text (''No value for key '' @ key)), [CallGet key], s'))
      | (Rejected e, s') \<Rightarrow> (Next e, [CallGet key], s')
      | (Threw e, s') \<Rightarrow> (Throws e, [CallGet key], s')
      | (Died e, s') \<Rightarrow> (NoResponse, [CallGet key], s'))"

definition route_put_key ::
  "('s, 'u, 'n) store_ops \<Rightarrow> request \<Rightarrow> 's \<Rightarrow> outcome \<times> store_call list \<times> 's" where
  "route_put_key store req s =
     (if \<not> is_json req
      then (Sent 400 (Text ''Request type must be `application/json`.''), [], s)
      else
        (let key = params_id req; b = body req in
         case st_upsert store (params_id req) (Some b) s of
           (Resolved u, s') \<Rightarrow>
             (Sent 201 (Text (''Stored `'' @ key @ ''`.'')), [CallUpsert key (Some b)], s')
         | (Rejected e, s') \<Rightarrow> (Next e, [CallUpsert key (Some b)], s')
         | (Threw e, s') \<Rightarrow> (Throws e, [CallUpsert key (Some b)], s')
         | (Died e, s') \<Rightarrow> (NoResponse, [CallUpsert key (Some b)], s')))"

definition route_delete_key ::
  "('s, 'u, 'n) store_ops \<Rightarrow> request \<Rightarrow> 's \<Rightarrow> outcome \<times> store_call list \<times> 's" where
  "route_delete_key store req s =
     (let key = params_id req in
      case st_delete store key s of
        (Resolved count, s') \<Rightarrow>
          (if count \<noteq> 0
           then (Sent 200 (Text (''Deleted '' @ key)), [CallDelete key], s')
           else (Sent 404 (Text (''Key `'' @ key @ ''` was not in the store!'')), [CallDelete key], s'))
      | (Rejected e, s') \<Rightarrow> (Next e, [CallDelete key], s')
      | (Threw e, s') \<Rightarrow> (Throws e, [CallDelete key], s')
      | (Died e, s') \<Rightarrow> (NoResponse, [CallDelete key], s'))"

text \<open>
  A request as it reaches the router. The path is the list of its decoded
  segments: \<^verbatim>\<open>/v1/key/abc\<close> is \<open>[''v1'', ''key'', ''abc'']\<close>, and
  \<^verbatim>\<open>/v1/key/\<close>, the path of the empty key, is \<open>[''v1'', ''key'', []]\<close>.
  Express compares the fixed segments without regard to letter case; the list
  holds them in lower case. The entity is what the request carries as its
  body: none at all (neither a length nor a transfer encoding is declared), one
  of length zero, a text that \<^verbatim>\<open>JSON.parse\<close> accepts, with the value it
  parses to, or any other text.
\<close>

datatype verb = GET | PUT | POST | DELETE

datatype entity = NoBody | EmptyBody | JsonText json | NotJson

record http_request =
  verb :: verb
  path :: "string list"
  json_content_type :: bool
  entity :: entity

definition VERSION_PREFIX :: string where
  "VERSION_PREFIX = ''v1''"

text \<open>
  \<^verbatim>\<open>router.use(require('body-parser').json())\<close> with its default options. A
  request without a body, or whose content type is not JSON, is passed on with
  \<^verbatim>\<open>req.body = {}\<close>. Otherwise a body of length zero is taken for
  \<^verbatim>\<open>{}\<close>; a text whose first character is neither \<^verbatim>\<open>{\<close> nor \<^verbatim>\<open>[\<close>
  (strict mode: anything that is not an object or an array) or that does not
  parse is an error with status 400, which Express answers without running a
  route; and an object or array becomes \<^verbatim>\<open>req.body\<close>.
\<close>

definition body_parser_json :: "http_request \<Rightarrow> nat + json" where
  "body_parser_json h =
     (if json_content_type h \<and> entity h \<noteq> NoBody then
        (case entity h of
           NoBody \<Rightarrow> Inr (JObj [])
         | EmptyBody \<Rightarrow> Inr (JObj [])
         | JsonText j \<Rightarrow> if is_value j then Inr j else Inl 400
         | NotJson \<Rightarrow> Inl 400)
      else Inr (JObj []))"

text \<open>
  \<^verbatim>\<open>req.is('json')\<close>: the request has a body and its content type is JSON.
\<close>

definition req_is_json :: "http_request \<Rightarrow> bool" where
  "req_is_json h = (entity h \<noteq> NoBody \<and> json_content_type h)"

text \<open>
  The router: the body parser first, then the first route whose method and path
  match. A \<^verbatim>\<open>:id\<close> segment matches one or more characters, so the path of the
  empty key matches no route; a request no route matches is answered 404 by
  Express.
\<close>

definition dispatch ::
  "config \<Rightarrow> ('s, 'u, 'n) store_ops \<Rightarrow> http_request \<Rightarrow> 's \<Rightarrow> outcome \<times> store_call list \<times> 's" where
  "dispatch cfg store h s =
     (case body_parser_json h of
        Inl status \<Rightarrow> (Sent status ErrorPage, [], s)
      | Inr b \<Rightarrow>
          (if verb h = GET \<and> path h = [VERSION_PREFIX, ''all'']
           then route_get_all store \<lparr>params_id = [], body = b, is_json = req_is_json h\<rparr> s
           else if verb h = POST \<and> path h = [VERSION_PREFIX, ''nuke'']
           then route_nuke cfg store \<lparr>params_id = [], body = b, is_json = req_is_json h\<rparr> s
           else
             (case path h of
                [p, k, name] \<Rightarrow>
                  (if p = VERSION_PREFIX \<and> k = ''key'' \<and> name \<noteq> [] then
                     (case verb h of
                        GET \<Rightarrow>
                          route_get_key store
                            \<lparr>params_id = name, body = b, is_json = req_is_json h\<rparr> s
                      | PUT \<Rightarrow>
                          route_put_key store
                            \<lparr>params_id = name, body = b, is_json = req_is_json h\<rparr> s
                      | DELETE \<Rightarrow>
                          route_delete_key store
                            \<lparr>params_id = name, body = b, is_json = req_is_json h\<rparr> s
                      | POST \<Rightarrow> (Sent 404 ErrorPage, [], s))
                   else (Sent 404 ErrorPage, [], s))
              | _ \<Rightarrow> (Sent 404 ErrorPage, [], s))))"

section \<open>Well-formed states\<close>

text \<open>
  The states the memory store can reach: \<^verbatim>\<open>store\<close> is a plain object whose
  property names are distinct and all carry the prefix.
\<close>

definition store_ok :: "jsobject \<Rightarrow> bool" where
  "store_ok s =
     (distinct (map fst (own s)) \<and>
      list_all (\<lambda>n. take (length KEY_PREFIX) n = KEY_PREFIX) (map fst (own s)) \<and>
      proto s = ObjectPrototype)"

text \<open>
  The tables the schema admits: the keys are distinct and at most 1024
  characters long, and no value column holds a bare \<^verbatim>\<open>null\<close>.
\<close>

definition table_ok :: "(string \<times> json) list \<Rightarrow> bool" where
  "table_ok t = (distinct (map fst t) \<and> list_all (\<lambda>n. length n \<le> 1024) (map fst t) \<and>
     list_all (\<lambda>d. d \<noteq> JNull) (map snd t))"

section \<open>Facts about the memory store\<close>

lemma prepKey_inj: "(prepKey k = prepKey k') = (k = k')"
  by (simp add: prepKey_def KEY_PREFIX_def)

lemma prepKey_not_proto: "prepKey k \<noteq> ''__proto__''"
  by (simp add: prepKey_def KEY_PREFIX_def)

lemma slice_prepKey: "drop (length KEY_PREFIX) (prepKey k) = k"
  by (simp add: prepKey_def)

lemma assign_prepKey:
  "obj_assign s (prepKey k) v = s\<lparr>own := AList.update (prepKey k) v (own s)\<rparr>"
  by (simp add: obj_assign_def prepKey_not_proto)

lemma get_absent: "\<not> obj_has s name \<Longrightarrow> obj_get s name = None"
proof -
  assume "\<not> obj_has s name"
  then have "map_of (own s) name = None"
    by (simp add: obj_has_def map_of_eq_None_iff)
  then show ?thesis
    by (simp add: obj_get_def)
qed

lemma get_after_upsert:
  "obj_get (snd (mem_upsert k v s)) (prepKey k') = (if k' = k then v else obj_get s (prepKey k'))"
  by (simp add: mem_upsert_def assign_prepKey obj_get_def update_conv' prepKey_inj)

lemma has_after_upsert:
  "obj_has (snd (mem_upsert k v s)) (prepKey k') = (k' = k \<or> obj_has s (prepKey k'))"
  by (auto simp add: mem_upsert_def assign_prepKey obj_has_def update_keys prepKey_inj)

lemma get_after_delete:
  "obj_get (snd (mem_delete k s)) (prepKey k') = (if k' = k then None else obj_get s (prepKey k'))"
proof (cases "obj_has s (prepKey k)")
  case True
  then show ?thesis
    by (simp add: mem_delete_def obj_delete_def obj_get_def delete_conv' prepKey_inj)
next
  case False
  then show ?thesis
    by (simp add: mem_delete_def get_absent)
qed

lemma has_after_delete:
  "obj_has (snd (mem_delete k s)) (prepKey k') = (k' \<noteq> k \<and> obj_has s (prepKey k'))"
proof (cases "obj_has s (prepKey k)")
  case True
  then show ?thesis
    by (auto simp add: mem_delete_def obj_delete_def obj_has_def delete_keys prepKey_inj)
next
  case False
  then show ?thesis
    by (auto simp add: mem_delete_def)
qed







text \<open>
  A Value that owns a \<^verbatim>\<open>toString\<close> key is stored by \<open>upsert\<close>, which then
  throws; every later \<open>get\<close> of that key throws as well.
\<close>

lemma upsert_toString_throws:
  "mem_upsert ''k'' (Some (JObj [(''toString'', JNum 1)])) mem_init =
     (Threw cannot_convert,
      \<lparr>own = [(''key_k'', Some (JObj [(''toString'', JNum 1)]))], proto = ObjectPrototype\<rparr>) \<and>
   fst (mem_get ''k'' (snd (mem_upsert ''k'' (Some (JObj [(''toString'', JNum 1)])) mem_init))) =
     Threw cannot_convert"
  by (simp add: mem_upsert_def mem_get_def coercion_throws_def mem_init_def empty_object_def
      obj_assign_def obj_get_def prepKey_def KEY_PREFIX_def)



text \<open>
  C10. In the memory store \<open>upsert(k, v)\<close> and \<open>delete(k)\<close> leave every other
  key as it was: for \<open>k'\<close> different from \<open>k\<close>, \<open>get(k')\<close> resolves to the
  same result before and after, and \<open>k'\<close> is in the store after exactly when it
  was before.
\<close>

theorem upsert_delete_frame:
  "k' \<noteq> k \<longrightarrow>
     fst (mem_get k' (snd (mem_upsert k v s))) = fst (mem_get k' s) \<and>
     obj_has (snd (mem_upsert k v s)) (prepKey k') = obj_has s (prepKey k') \<and>
     fst (mem_get k' (snd (mem_delete k s))) = fst (mem_get k' s) \<and>
     obj_has (snd (mem_delete k s)) (prepKey k') = obj_has s (prepKey k')"
  by (simp add: mem_get_def get_after_upsert get_after_delete has_after_upsert has_after_delete)

theorem upsert_delete_frame_witness:
  "fst (mem_get ''a'' (snd (mem_upsert ''b'' (Some (JObj []))
      (snd (mem_upsert ''a'' (Some (JArr [JNum 7])) mem_init))))) = Resolved (Some (JArr [JNum 7])) \<and>
   fst (mem_get ''a'' (snd (mem_delete ''b''
      (snd (mem_upsert ''a'' (Some (JArr [JNum 7])) mem_init))))) = Resolved (Some (JArr [JNum 7]))"
  using upsert_delete_frame
      [of "''a''" "''b''" "Some (JObj [])" "snd (mem_upsert ''a'' (Some (JArr [JNum 7])) mem_init)"]
  by (simp add: mem_get_def get_after_upsert coercion_throws_def)

section \<open>Facts about the router\<close>

text \<open>
  The PUT handler has one check of its own, the content type: a request
  \<^verbatim>\<open>req.is('json')\<close> does not accept is answered 400 with no store call, and
  every other request is passed to \<open>upsert\<close> once, with the key and the body as
  they were handed over.
\<close>

lemma put_content_type_gate:
  "(\<not> is_json req \<longrightarrow>
      route_put_key store req s =
        (Sent 400 (Text ''Request type must be `application/json`.''), [], s)) \<and>
   (is_json req \<longrightarrow>
      fst (snd (route_put_key store req s)) = [CallUpsert (params_id req) (Some (body req))] \<and>
      snd (snd (route_put_key store req s)) =
        snd (st_upsert store (params_id req) (Some (body req)) s) \<and>
      (\<forall>u. fst (st_upsert store (params_id req) (Some (body req)) s) = Resolved u \<longrightarrow>
         fst (route_put_key store req s) =
           Sent 201 (Text (''Stored `'' @ params_id req @ ''`.''))))"
  by (auto simp add: route_put_key_def Let_def split: prod.splits promise.splits)

text \<open>
  Four of the five invalid inputs are turned away before any store call. A
  bare scalar (null, a string, a number, a boolean) sent as JSON is answered 400
  by the body parser, on every path; sent under another content type, or to a
  key with no body at all, a PUT is answered 400 by the handler; and the path of
  the empty key is answered 404, no route matching it (or 400, when the body
  parser has already refused the body).
\<close>

lemma bare_scalar_rejected:
  "json_content_type h \<Longrightarrow> entity h = JsonText j \<Longrightarrow> \<not> is_value j \<Longrightarrow>
   dispatch cfg store h s = (Sent 400 ErrorPage, [], s)"
  by (simp add: dispatch_def body_parser_json_def)

lemma unparsable_rejected:
  "json_content_type h \<Longrightarrow> entity h = NotJson \<Longrightarrow>
   dispatch cfg store h s = (Sent 400 ErrorPage, [], s)"
  by (simp add: dispatch_def body_parser_json_def)

lemma put_without_json_rejected:
  "verb h = PUT \<Longrightarrow> path h = [VERSION_PREFIX, ''key'', name] \<Longrightarrow> name \<noteq> [] \<Longrightarrow>
   \<not> json_content_type h \<or> entity h = NoBody \<Longrightarrow>
   dispatch cfg store h s =
     (Sent 400 (Text ''Request type must be `application/json`.''), [], s)"
  by (auto simp add: dispatch_def body_parser_json_def req_is_json_def route_put_key_def
      VERSION_PREFIX_def)

lemma empty_key_not_routed:
  "path h = [VERSION_PREFIX, ''key'', []] \<Longrightarrow>
   dispatch cfg store h s = (Sent 404 ErrorPage, [], s) \<or>
   dispatch cfg store h s = (Sent 400 ErrorPage, [], s)"
  by (auto simp add: dispatch_def body_parser_json_def VERSION_PREFIX_def
      split: sum.splits entity.splits)

text \<open>
  C2. The claim has an empty request body answered 400 before any store call.
  A PUT with a JSON content type and a body of length zero passes both checks:
  the body parser takes the empty body for \<^verbatim>\<open>{}\<close>, \<^verbatim>\<open>req.is('json')\<close>
  holds, and the handler calls \<open>upsert\<close> with \<^verbatim>\<open>{}\<close> and answers 201.
\<close>

theorem put_empty_body_is_stored:
  "dispatch \<lparr>allowNuke = None\<rparr> memory_store
     \<lparr>verb = PUT, path = [''v1'', ''key'', ''k''], json_content_type = True, entity = EmptyBody\<rparr>
     mem_init =
     (Sent 201 (Text ''Stored `k`.''), [CallUpsert ''k'' (Some (JObj []))],
      \<lparr>own = [(''key_k'', Some (JObj []))], proto = ObjectPrototype\<rparr>)"
  by (simp add: dispatch_def body_parser_json_def req_is_json_def VERSION_PREFIX_def Let_def
      route_put_key_def memory_store_def mem_upsert_def mem_init_def empty_object_def
      obj_assign_def prepKey_def KEY_PREFIX_def coercion_throws_def)

text \<open>
  The nuke handler answers 400 and leaves the store alone exactly when one of
  its three truthiness tests fails.
\<close>

lemma nuke_gate:
  "route_nuke cfg store req s =
     (Sent 400
        (Text ''Nuking this store is not allowed or you didn't say the magic word (see README).''),
      [], s)
   \<longleftrightarrow> \<not> (truthy (allowNuke cfg) \<and> truthy (Some (body req)) \<and>
          truthy (prop_get (body req) ''nuke''))"
  by (auto simp add: route_nuke_def split: prod.splits promise.splits)

lemma nuke_runs:
  "truthy (allowNuke cfg) \<Longrightarrow> body req = JObj [(''nuke'', JBool True)] \<Longrightarrow>
   st_nuke store s = (Resolved u, s') \<Longrightarrow>
   route_nuke cfg store req s = (Sent 200 (Text ''Deleted all keys.''), [CallNuke], s')"
  by (simp add: route_nuke_def)

text \<open>
  C3. The claim (and the README) let the nuke succeed only for the body
  \<^verbatim>\<open>{"nuke": true}\<close>. The handler tests \<^verbatim>\<open>req.body.nuke\<close> for truthiness:
  with nuking allowed, the body \<^verbatim>\<open>{"nuke": "false"}\<close> is answered 200 and the
  store is emptied.
\<close>

theorem nuke_accepts_truthy_marker:
  "route_nuke \<lparr>allowNuke = Some (JBool True)\<rparr> memory_store
     \<lparr>params_id = [], body = JObj [(''nuke'', JStr ''false'')], is_json = True\<rparr>
     (snd (mem_upsert ''a'' (Some (JArr [])) mem_init)) =
     (Sent 200 (Text ''Deleted all keys.''), [CallNuke], empty_object)"
  by (simp add: route_nuke_def memory_store_def mem_nuke_def)

text \<open>
  On four of the five routes a rejected store promise is handed to
  \<^verbatim>\<open>next\<close>, whatever the error.
\<close>

lemma rejections_reach_next:
  "fst (st_get store (params_id req) s) = Rejected e \<Longrightarrow>
     fst (route_get_key store req s) = Next e"
  "is_json req \<Longrightarrow> fst (st_upsert store (params_id req) (Some (body req)) s) = Rejected e \<Longrightarrow>
     fst (route_put_key store req s) = Next e"
  "fst (st_delete store (params_id req) s) = Rejected e \<Longrightarrow>
     fst (route_delete_key store req s) = Next e"
  "truthy (allowNuke cfg) \<Longrightarrow> truthy (Some (body req)) \<Longrightarrow>
   truthy (prop_get (body req) ''nuke'') \<Longrightarrow> fst (st_nuke store s) = Rejected e \<Longrightarrow>
     fst (route_nuke cfg store req s) = Next e"
  by (auto simp add: route_get_key_def route_put_key_def route_delete_key_def route_nuke_def
      Let_def split: prod.splits promise.splits)

text \<open>
  C4. The claim has every route hand a store failure to the server-error path.
  The get-all route registers no rejection callback: when \<open>getAll\<close> rejects (the
  Postgres store, the engine reporting an error), no response is sent and
  \<^verbatim>\<open>next\<close> is never called. Nothing is sent either when the pool reports an
  error, the process ending under the call.
\<close>

theorem get_all_drops_rejection:
  "route_get_all postgres_store \<lparr>params_id = [], body = JObj [], is_json = False\<rparr>
     \<lparr>kvs = [(''a'', JObj [(''value'', JArr [])])],
      fault = ConnectFails (EngineError ''ECONNREFUSED'')\<rparr> =
     (NoResponse, [CallGetAll],
      \<lparr>kvs = [(''a'', JObj [(''value'', JArr [])])],
       fault = ConnectFails (EngineError ''ECONNREFUSED'')\<rparr>) \<and>
   pg_getAll \<lparr>kvs = [(''a'', JObj [(''value'', JArr [])])],
      fault = QueryFails (EngineError ''deadlock detected'')\<rparr> =
     (Rejected (EngineError ''deadlock detected''),
      \<lparr>kvs = [(''a'', JObj [(''value'', JArr [])])],
       fault = QueryFails (EngineError ''deadlock detected'')\<rparr>) \<and>
   route_get_all postgres_store \<lparr>params_id = [], body = JObj [], is_json = False\<rparr>
     \<lparr>kvs = [(''a'', JObj [(''value'', JArr [])])],
      fault = QueryFails (EngineError ''deadlock detected'')\<rparr> =
     (NoResponse, [CallGetAll],
      \<lparr>kvs = [(''a'', JObj [(''value'', JArr [])])],
       fault = QueryFails (EngineError ''deadlock detected'')\<rparr>)"
  by (simp add: route_get_all_def postgres_store_def pg_getAll_def query_def)

section \<open>Delete, nuke and the status codes\<close>

lemma filter_key_count:
  "distinct (map fst t) \<Longrightarrow>
   length (filter (\<lambda>(k', d). k' = k) t) = (if k \<in> set (map fst t) then 1 else 0)"
  by (induction t) (auto simp add: rev_image_eqI)

text \<open>
  C5. \<open>delete(k)\<close> resolves to 1 when \<open>k\<close> is in the store and to 0 when it
  is not, and afterwards \<open>k\<close> is absent. In the memory store this holds in every
  state; in the Postgres store it holds whenever the statement runs, the keys
  of the table being distinct (the primary key).
\<close>

theorem delete_count:
  "fst (mem_delete k s) = Resolved (if obj_has s (prepKey k) then 1 else 0) \<and>
   \<not> obj_has (snd (mem_delete k s)) (prepKey k) \<and>
   fst (mem_get k (snd (mem_delete k s))) = Resolved None \<and>
   (fault w = Healthy \<and> distinct (map fst (kvs w)) \<longrightarrow>
      fst (pg_delete k w) = Resolved (if k \<in> set (map fst (kvs w)) then 1 else 0) \<and>
      k \<notin> set (map fst (kvs (snd (pg_delete k w)))) \<and>
      fst (pg_get k (snd (pg_delete k w))) = Resolved None)"
proof -
  have m1: "fst (mem_delete k s) = Resolved (if obj_has s (prepKey k) then 1 else 0)"
    by (simp add: mem_delete_def)
  have m2: "\<not> obj_has (snd (mem_delete k s)) (prepKey k)"
    by (simp add: has_after_delete)
  have m3: "fst (mem_get k (snd (mem_delete k s))) = Resolved None"
    by (simp add: mem_get_def get_after_delete coercion_throws_def)
  have p: "fault w = Healthy \<and> distinct (map fst (kvs w)) \<longrightarrow>
      fst (pg_delete k w) = Resolved (if k \<in> set (map fst (kvs w)) then 1 else 0) \<and>
      k \<notin> set (map fst (kvs (snd (pg_delete k w)))) \<and>
      fst (pg_get k (snd (pg_delete k w))) = Resolved None"
  proof
    assume h: "fault w = Healthy \<and> distinct (map fst (kvs w))"
    have gone: "filter (\<lambda>(k', d). k' = k) (filter (\<lambda>(k', d). k' \<noteq> k) (kvs w)) = []"
      by (induction "kvs w") (auto simp add: filter_empty_conv)
    from h have c: "fst (pg_delete k w) = Resolved (if k \<in> set (map fst (kvs w)) then 1 else 0)"
      by (simp add: pg_delete_def query_def filter_key_count)
    from h have w': "snd (pg_delete k w) = w\<lparr>kvs := filter (\<lambda>(k', d). k' \<noteq> k) (kvs w)\<rparr>"
      by (simp add: pg_delete_def query_def)
    have a: "k \<notin> set (map fst (kvs (snd (pg_delete k w))))"
      by (auto simp add: w')
    from h have g: "fst (pg_get k (snd (pg_delete k w))) = Resolved None"
      by (simp add: w' pg_get_def query_def gone as_rows_def del: filter_filter)
    from c a g show "fst (pg_delete k w) = Resolved (if k \<in> set (map fst (kvs w)) then 1 else 0) \<and>
      k \<notin> set (map fst (kvs (snd (pg_delete k w)))) \<and>
      fst (pg_get k (snd (pg_delete k w))) = Resolved None"
      by blast
  qed
  from m1 m2 m3 p show ?thesis by blast
qed

theorem delete_count_witness:
  "fst (pg_delete ''a'' \<lparr>kvs = [(''a'', JObj [(''value'', JArr [])])], fault = Healthy\<rparr>) = Resolved 1 \<and>
   fst (pg_delete ''b'' \<lparr>kvs = [(''a'', JObj [(''value'', JArr [])])], fault = Healthy\<rparr>) = Resolved 0 \<and>
   fst (mem_delete ''a'' (snd (mem_upsert ''a'' (Some (JArr [])) mem_init))) = Resolved 1 \<and>
   fst (mem_delete ''b'' (snd (mem_upsert ''a'' (Some (JArr [])) mem_init))) = Resolved 0"
  using delete_count [of "''a''" "snd (mem_upsert ''a'' (Some (JArr [])) mem_init)"
      "\<lparr>kvs = [(''a'', JObj [(''value'', JArr [])])], fault = Healthy\<rparr>"]
    delete_count [of "''b''" "snd (mem_upsert ''a'' (Some (JArr [])) mem_init)"
      "\<lparr>kvs = [(''a'', JObj [(''value'', JArr [])])], fault = Healthy\<rparr>"]
  by (simp add: mem_upsert_def obj_assign_def prepKey_def KEY_PREFIX_def obj_has_def
      mem_init_def empty_object_def)

text \<open>
  C6. Whatever the store holds (in particular after any run of upserts and
  deletes), \<open>nuke()\<close> resolves and a following \<open>getAll()\<close> resolves to the
  empty object, which serialises as \<^verbatim>\<open>{}\<close>. The same holds for the Postgres
  store whenever its statements run.
\<close>

theorem nuke_then_getAll_empty:
  "fst (mem_nuke s) = Resolved () \<and>
   fst (mem_getAll (snd (mem_nuke s))) = Resolved empty_object \<and>
   to_json empty_object = JObj [] \<and>
   (fault w = Healthy \<longrightarrow> fst (pg_getAll (snd (pg_nuke w))) = Resolved empty_object)"
  by (simp add: mem_nuke_def mem_getAll_def obj_keys_def empty_object_def to_json_def
      pg_nuke_def pg_getAll_def query_def as_rows_def)

theorem nuke_then_getAll_empty_witness:
  "fst (mem_getAll (snd (mem_nuke
      (mem_run [Upsert ''a'' (Some (JArr [])), Upsert ''b'' (Some (JObj [])), Delete ''a''] mem_init)))) =
     Resolved empty_object \<and>
   fst (pg_getAll (snd (pg_nuke
      \<lparr>kvs = [(''a'', JObj [(''value'', JArr [])])], fault = Healthy\<rparr>))) = Resolved empty_object"
  using nuke_then_getAll_empty
      [of "mem_run [Upsert ''a'' (Some (JArr [])), Upsert ''b'' (Some (JObj [])), Delete ''a''] mem_init"
          "\<lparr>kvs = [(''a'', JObj [(''value'', JArr [])])], fault = Healthy\<rparr>"]
  by simp

text \<open>
  C7. The get-one handler answers 200 with the value when the store's
  \<open>get\<close> resolves to a Value (an array or an object) and 404 when it resolves to
  \<^verbatim>\<open>undefined\<close>; the delete handler answers 200 when \<open>delete\<close> resolves to 1
  and 404 when it resolves to 0.
\<close>

theorem status_mapping:
  "(st_get store (params_id req) s = (Resolved (Some v), s') \<and> is_value v \<longrightarrow>
      route_get_key store req s = (Sent 200 (Json v), [CallGet (params_id req)], s')) \<and>
   (st_get store (params_id req) s = (Resolved None, s') \<longrightarrow>
      route_get_key store req s =
        (Sent 404 (Text (''No value for key '' @ params_id req)), [CallGet (params_id req)], s')) \<and>
   (st_delete store (params_id req) s = (Resolved 1, s') \<longrightarrow>
      route_delete_key store req s =
        (Sent 200 (Text (''Deleted '' @ params_id req)), [CallDelete (params_id req)], s')) \<and>
   (st_delete store (params_id req) s = (Resolved 0, s') \<longrightarrow>
      route_delete_key store req s =
        (Sent 404 (Text (''Key `'' @ params_id req @ ''` was not in the store!'')),
         [CallDelete (params_id req)], s'))"
  by (simp add: route_get_key_def route_delete_key_def Let_def)

theorem status_mapping_witness:
  "route_get_key memory_store \<lparr>params_id = ''a'', body = JObj [], is_json = False\<rparr>
     (snd (mem_upsert ''a'' (Some (JArr [JNum 1, JNum 2, JNum 3])) mem_init)) =
     (Sent 200 (Json (JArr [JNum 1, JNum 2, JNum 3])), [CallGet ''a''],
      snd (mem_upsert ''a'' (Some (JArr [JNum 1, JNum 2, JNum 3])) mem_init)) \<and>
   route_get_key memory_store \<lparr>params_id = ''a'', body = JObj [], is_json = False\<rparr> mem_init =
     (Sent 404 (Text ''No value for key a''), [CallGet ''a''], mem_init) \<and>
   route_delete_key memory_store \<lparr>params_id = ''a'', body = JObj [], is_json = False\<rparr>
     (snd (mem_upsert ''a'' (Some (JArr [JNum 1, JNum 2, JNum 3])) mem_init)) =
     (Sent 200 (Text ''Deleted a''), [CallDelete ''a''], mem_init) \<and>
   route_delete_key memory_store \<lparr>params_id = ''a'', body = JObj [], is_json = False\<rparr> mem_init =
     (Sent 404 (Text ''Key `a` was not in the store!''), [CallDelete ''a''], mem_init)"
  using status_mapping
      [of memory_store "\<lparr>params_id = ''a'', body = JObj [], is_json = False\<rparr>"
          "snd (mem_upsert ''a'' (Some (JArr [JNum 1, JNum 2, JNum 3])) mem_init)"
          "JArr [JNum 1, JNum 2, JNum 3]"
          "snd (mem_upsert ''a'' (Some (JArr [JNum 1, JNum 2, JNum 3])) mem_init)"]
    status_mapping
      [of memory_store "\<lparr>params_id = ''a'', body = JObj [], is_json = False\<rparr>"
          mem_init "JArr []" mem_init]
    status_mapping
      [of memory_store "\<lparr>params_id = ''a'', body = JObj [], is_json = False\<rparr>"
          "snd (mem_upsert ''a'' (Some (JArr [JNum 1, JNum 2, JNum 3])) mem_init)"
          "JArr []" mem_init]
  by (simp add: memory_store_def mem_get_def mem_delete_def mem_upsert_def obj_assign_def
      obj_get_def obj_has_def obj_delete_def prepKey_def KEY_PREFIX_def mem_init_def
      empty_object_def coercion_throws_def)

section \<open>What getAll returns\<close>

text \<open>
  Every call keeps the memory store well formed, and on a well-formed store
  that does not hold the key \<^verbatim>\<open>__proto__\<close>, \<open>getAll\<close> resolves to a
  plain object with one property for each stored key, the prefix removed and
  the value as stored.
\<close>

lemma store_ok_init: "store_ok mem_init"
  by (simp add: store_ok_def mem_init_def empty_object_def)

lemma prepKey_prefix: "take (length KEY_PREFIX) (prepKey k) = KEY_PREFIX"
  by (simp add: prepKey_def)

lemma store_ok_upsert: "store_ok s \<Longrightarrow> store_ok (snd (mem_upsert k v s))"
proof -
  assume ok: "store_ok s"
  have own': "own (snd (mem_upsert k v s)) = AList.update (prepKey k) v (own s)"
    and proto': "proto (snd (mem_upsert k v s)) = proto s"
    by (simp_all add: mem_upsert_def assign_prepKey)
  have "set (map fst (AList.update (prepKey k) v (own s))) \<subseteq> insert (prepKey k) (set (map fst (own s)))"
    by (auto simp add: update_keys)
  with ok have "list_all (\<lambda>n. take (length KEY_PREFIX) n = KEY_PREFIX)
      (map fst (AList.update (prepKey k) v (own s)))"
    unfolding store_ok_def list_all_iff using prepKey_prefix by blast
  with ok show ?thesis
    by (simp add: store_ok_def own' proto' distinct_update)
qed

lemma store_ok_delete: "store_ok s \<Longrightarrow> store_ok (snd (mem_delete k s))"
proof (cases "obj_has s (prepKey k)")
  case False
  then show "store_ok s \<Longrightarrow> ?thesis"
    by (simp add: mem_delete_def)
next
  case True
  assume ok: "store_ok s"
  from True have own': "own (snd (mem_delete k s)) = AList.delete (prepKey k) (own s)"
    and proto': "proto (snd (mem_delete k s)) = proto s"
    by (simp_all add: mem_delete_def obj_delete_def)
  have "set (map fst (AList.delete (prepKey k) (own s))) \<subseteq> set (map fst (own s))"
    by (auto simp add: delete_keys)
  with ok have "list_all (\<lambda>n. take (length KEY_PREFIX) n = KEY_PREFIX)
      (map fst (AList.delete (prepKey k) (own s)))"
    unfolding store_ok_def list_all_iff by blast
  with ok show ?thesis
    by (simp add: store_ok_def own' proto' distinct_delete)
qed

lemma store_ok_step: "store_ok s \<Longrightarrow> store_ok (mem_step x s)"
  by (cases x)
     (simp_all add: store_ok_upsert store_ok_delete mem_get_def mem_getAll_def,
      simp add: store_ok_def mem_nuke_def empty_object_def)

lemma store_ok_run: "store_ok s \<Longrightarrow> store_ok (mem_run ops s)"
  by (induction ops arbitrary: s) (simp_all add: store_ok_step)

lemma update_fresh: "n \<notin> fst ` set al \<Longrightarrow> AList.update n v al = al @ [(n, v)]"
  by (induction al) auto

lemma assign_fresh:
  "n \<noteq> ''__proto__'' \<Longrightarrow> \<not> obj_has acc n \<Longrightarrow>
   obj_assign acc n v = acc\<lparr>own := own acc @ [(n, v)]\<rparr>"
  by (simp add: obj_assign_def obj_has_def update_fresh)

lemma assign_all_fresh:
  "distinct (map fst ps) \<Longrightarrow> ''__proto__'' \<notin> fst ` set ps \<Longrightarrow>
   fst ` set ps \<inter> fst ` set (own acc) = {} \<Longrightarrow>
   foldl (\<lambda>all (n, v). obj_assign all n v) acc ps = acc\<lparr>own := own acc @ ps\<rparr>"
proof (induction ps arbitrary: acc)
  case Nil
  then show ?case by simp
next
  case (Cons p ps)
  obtain n v where p: "p = (n, v)" by (cases p)
  from Cons.prems p have fresh: "n \<noteq> ''__proto__''" "\<not> obj_has acc n"
    by (auto simp add: obj_has_def)
  have step: "obj_assign acc n v = acc\<lparr>own := own acc @ [(n, v)]\<rparr>"
    using fresh by (rule assign_fresh)
  from Cons.prems p have rest: "distinct (map fst ps)" "''__proto__'' \<notin> fst ` set ps"
    "fst ` set ps \<inter> fst ` set (own (acc\<lparr>own := own acc @ [(n, v)]\<rparr>)) = {}"
    by auto
  have "foldl (\<lambda>all (n, v). obj_assign all n v) (acc\<lparr>own := own acc @ [(n, v)]\<rparr>) ps =
      (acc\<lparr>own := own acc @ [(n, v)]\<rparr>)\<lparr>own := own (acc\<lparr>own := own acc @ [(n, v)]\<rparr>) @ ps\<rparr>"
    using rest by (rule Cons.IH)
  then show ?case
    by (simp add: p step)
qed

lemma get_own: "distinct (map fst (own s)) \<Longrightarrow> (n, v) \<in> set (own s) \<Longrightarrow> obj_get s n = v"
  by (simp add: obj_get_def)

lemma getAll_as_fold:
  assumes "distinct (map fst (own s))"
  shows "foldl (\<lambda>all prop. obj_assign all (drop (length KEY_PREFIX) prop) (obj_get s prop))
           acc (obj_keys s) =
         foldl (\<lambda>all (n, v). obj_assign all n v) acc
           (map (\<lambda>(n, v). (drop (length KEY_PREFIX) n, v)) (own s))"
proof -
  have "foldl (\<lambda>all prop. obj_assign all (drop (length KEY_PREFIX) prop) (obj_get s prop))
           acc (map fst ps) =
         foldl (\<lambda>all (n, v). obj_assign all n v) acc
           (map (\<lambda>(n, v). (drop (length KEY_PREFIX) n, v)) ps)"
    if "set ps \<subseteq> set (own s)" for ps
    using that
  proof (induction ps arbitrary: acc)
    case Nil
    then show ?case by simp
  next
    case (Cons p ps)
    obtain n v where p: "p = (n, v)" by (cases p)
    with Cons.prems assms have "obj_get s n = v"
      by (simp add: get_own)
    with Cons p show ?case
      by simp
  qed
  then show ?thesis
    by (simp add: obj_keys_def)
qed

lemma strip_distinct:
  "distinct ns \<Longrightarrow> list_all (\<lambda>n. take m n = pre) ns \<Longrightarrow> distinct (map (drop m) ns)"
proof (induction ns)
  case Nil
  then show ?case by simp
next
  case (Cons n ns)
  have "drop m n \<notin> drop m ` set ns"
  proof
    assume "drop m n \<in> drop m ` set ns"
    then obtain n' where n': "n' \<in> set ns" "drop m n = drop m n'"
      by auto
    with Cons.prems have "take m n = take m n'"
      by (auto simp add: list_all_iff)
    with n' have "n = n'"
      by (metis append_take_drop_id)
    with n' Cons.prems show False
      by simp
  qed
  with Cons show ?case
    by simp
qed

lemma getAll_keeps_keys:
  assumes ok: "store_ok s" and no_proto: "\<not> obj_has s (prepKey ''__proto__'')"
  shows "fst (mem_getAll s) =
     Resolved \<lparr>own = map (\<lambda>(n, v). (drop (length KEY_PREFIX) n, v)) (own s),
               proto = ObjectPrototype\<rparr>"
proof -
  let ?ps = "map (\<lambda>(n, v). (drop (length KEY_PREFIX) n, v)) (own s)"
  have names: "map fst ?ps = map (drop (length KEY_PREFIX)) (map fst (own s))"
    by (simp add: case_prod_unfold comp_def)
  from ok have d: "distinct (map fst (own s))"
    and pre: "list_all (\<lambda>n. take (length KEY_PREFIX) n = KEY_PREFIX) (map fst (own s))"
    by (simp_all add: store_ok_def)
  from d pre have d': "distinct (map fst ?ps)"
    unfolding names by (rule strip_distinct)
  have np: "''__proto__'' \<notin> fst ` set ?ps"
  proof
    assume "''__proto__'' \<in> fst ` set ?ps"
    then obtain p where p: "p \<in> set (own s)"
      "drop (length KEY_PREFIX) (fst p) = ''__proto__''"
      by (auto simp add: case_prod_unfold)
    define n where "n = fst p"
    from p have n: "n \<in> set (map fst (own s))" "drop (length KEY_PREFIX) n = ''__proto__''"
      by (simp_all add: n_def)
    with pre have "take (length KEY_PREFIX) n = KEY_PREFIX"
      unfolding list_all_iff by blast
    with n have "n = prepKey ''__proto__''"
      by (metis append_take_drop_id prepKey_def)
    with n no_proto show False
      by (simp add: obj_has_def)
  qed
  have "foldl (\<lambda>all (n, v). obj_assign all n v) empty_object ?ps =
      empty_object\<lparr>own := own empty_object @ ?ps\<rparr>"
    using d' np by (rule assign_all_fresh) (simp add: empty_object_def)
  with d show ?thesis
    by (simp add: mem_getAll_def getAll_as_fold empty_object_def)
qed

section \<open>Keys that name the prototype\<close>

text \<open>
  C9. The claim has \<open>getAll\<close> return a mapping whose keys are exactly the
  keys that were upserted. The munged names are safe in \<^verbatim>\<open>store\<close>, but
  \<open>getAll\<close> assigns each value to the bare key on a fresh \<^verbatim>\<open>{}\<close>: for the
  key \<^verbatim>\<open>__proto__\<close> that assignment replaces the prototype of the result and
  creates no property. After upserts of \<^verbatim>\<open>a\<close> and \<^verbatim>\<open>__proto__\<close>, \<open>get\<close>
  finds both values, and \<open>getAll\<close> resolves to an object whose only key is
  \<^verbatim>\<open>a\<close>.
\<close>

theorem mem_getAll_loses_proto_key:
  "fst (mem_get ''__proto__''
      (mem_run [Upsert ''a'' (Some (JObj [])), Upsert ''__proto__'' (Some (JArr [JNum 1]))] mem_init)) =
     Resolved (Some (JArr [JNum 1])) \<and>
   fst (mem_getAll
      (mem_run [Upsert ''a'' (Some (JObj [])), Upsert ''__proto__'' (Some (JArr [JNum 1]))] mem_init)) =
     Resolved \<lparr>own = [(''a'', Some (JObj []))], proto = ProtoOf (JArr [JNum 1])\<rparr> \<and>
   obj_keys \<lparr>own = [(''a'', Some (JObj []))], proto = ProtoOf (JArr [JNum 1])\<rparr> = [''a''] \<and>
   fst (route_get_all memory_store \<lparr>params_id = [], body = JObj [], is_json = False\<rparr>
      (mem_run [Upsert ''a'' (Some (JObj [])), Upsert ''__proto__'' (Some (JArr [JNum 1]))] mem_init)) =
     Sent 200 (Json (JObj [(''a'', JObj [])]))"
  by (simp add: mem_getAll_def mem_get_def mem_upsert_def mem_init_def empty_object_def
      obj_assign_def prepKey_def KEY_PREFIX_def obj_keys_def obj_get_def setter_visible_def
      obj_has_def route_get_all_def memory_store_def to_json_def coercion_throws_def)

text \<open>
  In the Postgres store the envelope is put on by \<open>upsert\<close> and taken off by
  both reads: for a key of at most 1024 characters \<open>get\<close> after \<open>upsert\<close>
  resolves to the value itself, and on a table without the key
  \<^verbatim>\<open>__proto__\<close> \<open>getAll\<close> resolves to a plain object holding every row
  unwrapped.
\<close>

lemma unwrap_wrap: "unwrap (wrap v) = Inr v"
  by (cases v) (simp_all add: wrap_def)

lemma wrap_not_null: "wrap v \<noteq> JNull"
  by (cases v) (simp_all add: wrap_def)

lemma sql_update_Cons:
  "sql_update k d ((k', d') # t) = (if k' = k then (k, d) else (k', d')) # sql_update k d t"
  by (simp add: sql_update_def)

lemma sql_update_keys: "map fst (sql_update k d t) = map fst t"
  by (induction t) (simp_all add: sql_update_def case_prod_unfold)

lemma sql_update_docs: "set (map snd (sql_update k d t)) \<subseteq> insert d (set (map snd t))"
  by (induction t) (auto simp add: sql_update_def)

lemma no_key_no_rows: "k \<notin> set (map fst t) \<Longrightarrow> filter (\<lambda>(k', d'). k' = k) t = []"
  by (induction t) auto

lemma update_hits:
  "k \<in> set (map fst t) \<Longrightarrow>
   \<exists>rest. filter (\<lambda>(k', d'). k' = k) (sql_update k d t) = (k, d) # rest"
proof (induction t)
  case Nil
  then show ?case by simp
next
  case (Cons p t)
  obtain k' d' where p: "p = (k', d')" by (cases p)
  show ?case
  proof (cases "k' = k")
    case True
    with p show ?thesis
      by (simp add: sql_update_Cons)
  next
    case False
    with Cons.prems p have "k \<in> set (map fst t)"
      by auto
    then obtain rest where "filter (\<lambda>(k', d'). k' = k) (sql_update k d t) = (k, d) # rest"
      using Cons.IH by blast
    with False p show ?thesis
      by (simp add: sql_update_Cons)
  qed
qed

lemma upsert_fn_present:
  "k \<in> set (map fst t) \<Longrightarrow> length k \<le> 1024 \<Longrightarrow> upsert_fn k d t = sql_update k d t"
  by (simp add: upsert_fn_def sql_insert_def to_varchar_1024_def)

lemma upsert_fn_absent:
  "k \<notin> set (map fst t) \<Longrightarrow> length k \<le> 1024 \<Longrightarrow> upsert_fn k d t = t @ [(k, d)]"
  by (simp add: upsert_fn_def sql_insert_def to_varchar_1024_def)

lemma upsert_fn_hits:
  assumes "length k \<le> 1024"
  shows "\<exists>rest. filter (\<lambda>(k', d'). k' = k) (upsert_fn k d t) = (k, d) # rest"
proof (cases "k \<in> set (map fst t)")
  case True
  with assms show ?thesis
    by (simp only: upsert_fn_present update_hits)
next
  case False
  with assms show ?thesis
    by (simp add: upsert_fn_absent no_key_no_rows)
qed

lemma envelope_roundtrip:
  assumes "fault w = Healthy" and "length k \<le> 1024"
  shows "fst (pg_get k (snd (pg_upsert k v w))) = Resolved v"
proof -
  from assms(2) obtain rest where
    "filter (\<lambda>(k', d'). k' = k) (upsert_fn k (wrap v) (kvs w)) = (k, wrap v) # rest"
    using upsert_fn_hits by blast
  with assms(1) show ?thesis
    by (simp add: pg_get_def pg_upsert_def query_def as_rows_def unwrap_wrap)
qed

lemma table_ok_upsert_fn: "table_ok t \<Longrightarrow> d \<noteq> JNull \<Longrightarrow> table_ok (upsert_fn k d t)"
proof (cases "sql_insert k d t")
  case None
  assume ok: "table_ok t" and d: "d \<noteq> JNull"
  from ok d sql_update_docs [of k d t]
  have "list_all (\<lambda>d. d \<noteq> JNull) (map snd (sql_update k d t))"
    unfolding table_ok_def list_all_iff by blast
  with ok None show ?thesis
    by (simp add: upsert_fn_def table_ok_def sql_update_keys)
next
  case (Some t')
  assume ok: "table_ok t" and d: "d \<noteq> JNull"
  from Some obtain k' where k': "to_varchar_1024 k = Some k'" "k' \<notin> set (map fst t)"
    "t' = t @ [(k', d)]"
    by (auto simp add: sql_insert_def split: option.splits if_splits)
  from k'(1) have "length k' \<le> 1024"
    by (auto simp add: to_varchar_1024_def split: if_splits)
  with ok d k' Some show ?thesis
    by (simp add: upsert_fn_def table_ok_def)
qed

lemma table_ok_exec:
  "table_ok t \<Longrightarrow> (case q of SelectUpsert k d \<Rightarrow> d \<noteq> JNull | _ \<Rightarrow> True) \<Longrightarrow>
   table_ok (snd (exec q t))"
proof (cases q)
  case (SelectUpsert k d)
  then show "table_ok t \<Longrightarrow> (case q of SelectUpsert k d \<Rightarrow> d \<noteq> JNull | _ \<Rightarrow> True) \<Longrightarrow> ?thesis"
    by (simp add: table_ok_upsert_fn)
next
  case (DeleteWhere k)
  then show "table_ok t \<Longrightarrow> ?thesis"
    by (auto simp add: table_ok_def distinct_map_filter list_all_iff)
qed (simp_all add: table_ok_def)

lemma collect_fresh:
  "distinct (map fst t) \<Longrightarrow> ''__proto__'' \<notin> fst ` set t \<Longrightarrow>
   list_all (\<lambda>d. d \<noteq> JNull) (map snd t) \<Longrightarrow>
   fst ` set t \<inter> fst ` set (own acc) = {} \<Longrightarrow>
   collect (as_rows t) acc =
     Inr (acc\<lparr>own := own acc @ map (\<lambda>(k, d). (k, prop_get d ''value'')) t\<rparr>)"
proof (induction t arbitrary: acc)
  case Nil
  then show ?case by (simp add: as_rows_def)
next
  case (Cons p t)
  obtain k d where p: "p = (k, d)" by (cases p)
  from Cons.prems p have d: "d \<noteq> JNull" by simp
  then have u: "unwrap d = Inr (prop_get d ''value'')"
    by (cases d) simp_all
  from Cons.prems p have fresh: "k \<noteq> ''__proto__''" "\<not> obj_has acc k"
    by (auto simp add: obj_has_def)
  have step: "obj_assign acc k (prop_get d ''value'') =
      acc\<lparr>own := own acc @ [(k, prop_get d ''value'')]\<rparr>"
    using fresh by (rule assign_fresh)
  from Cons.prems p have rest: "distinct (map fst t)" "''__proto__'' \<notin> fst ` set t"
    "list_all (\<lambda>d. d \<noteq> JNull) (map snd t)"
    "fst ` set t \<inter> fst ` set (own (acc\<lparr>own := own acc @ [(k, prop_get d ''value'')]\<rparr>)) = {}"
    by auto
  have "collect (as_rows t) (acc\<lparr>own := own acc @ [(k, prop_get d ''value'')]\<rparr>) =
      Inr ((acc\<lparr>own := own acc @ [(k, prop_get d ''value'')]\<rparr>)
        \<lparr>own := own (acc\<lparr>own := own acc @ [(k, prop_get d ''value'')]\<rparr>) @
           map (\<lambda>(k, d). (k, prop_get d ''value'')) t\<rparr>)"
    using rest by (rule Cons.IH)
  then show ?case
    using as_rows_def by (simp add: p u step as_rows_def)
qed

lemma pg_getAll_unwraps:
  assumes "fault w = Healthy" and "table_ok (kvs w)" and "''__proto__'' \<notin> fst ` set (kvs w)"
  shows "fst (pg_getAll w) =
     Resolved \<lparr>own = map (\<lambda>(k, d). (k, prop_get d ''value'')) (kvs w), proto = ObjectPrototype\<rparr>"
proof -
  from assms(2) have "distinct (map fst (kvs w))" "list_all (\<lambda>d. d \<noteq> JNull) (map snd (kvs w))"
    by (simp_all add: table_ok_def)
  then have "collect (as_rows (kvs w)) empty_object =
      Inr (empty_object\<lparr>own := own empty_object @ map (\<lambda>(k, d). (k, prop_get d ''value'')) (kvs w)\<rparr>)"
    using assms(3) by (intro collect_fresh) (simp_all add: empty_object_def)
  with assms(1) show ?thesis
    by (simp add: pg_getAll_def query_def empty_object_def)
qed

lemma sql_update_lookup:
  "k \<in> set (map fst t) \<Longrightarrow> map_of (sql_update k d t) k = Some d"
proof (induction t)
  case Nil
  then show ?case by simp
next
  case (Cons p t)
  obtain k' d' where p: "p = (k', d')" by (cases p)
  with Cons show ?case
    by (cases "k' = k") (auto simp add: sql_update_Cons)
qed

lemma upsert_fn_lookup:
  assumes "length k \<le> 1024"
  shows "map_of (upsert_fn k d t) k = Some d"
proof (cases "k \<in> set (map fst t)")
  case True
  with assms show ?thesis
    by (simp only: upsert_fn_present sql_update_lookup)
next
  case False
  then have "map_of t k = None"
    by (simp add: map_of_eq_None_iff)
  with False assms show ?thesis
    by (simp add: upsert_fn_absent map_add_def)
qed

lemma upsert_fn_keys:
  assumes "length k \<le> 1024"
  shows "set (map fst (upsert_fn k d t)) = insert k (set (map fst t))"
proof (cases "k \<in> set (map fst t)")
  case True
  with assms have "map fst (upsert_fn k d t) = map fst t"
    by (simp only: upsert_fn_present sql_update_keys)
  with True show ?thesis
    by auto
next
  case False
  with assms show ?thesis
    by (simp add: upsert_fn_absent)
qed

lemma pg_getAll_maps_key:
  assumes h: "fault w = Healthy" and ok: "table_ok (kvs w)" and len: "length k \<le> 1024"
    and k: "k \<noteq> ''__proto__''" and np: "''__proto__'' \<notin> fst ` set (kvs w)"
  shows "\<exists>all. fst (pg_getAll (snd (pg_upsert k v w))) = Resolved all \<and>
           map_of (own all) k = Some v"
proof -
  let ?t = "upsert_fn k (wrap v) (kvs w)"
  let ?w = "snd (pg_upsert k v w)"
  from h have w': "?w = w\<lparr>kvs := ?t\<rparr>"
    by (simp add: pg_upsert_def query_def)
  from ok have ok': "table_ok ?t"
    by (simp add: table_ok_upsert_fn wrap_not_null)
  from len k np have np': "''__proto__'' \<notin> fst ` set ?t"
    using upsert_fn_keys [of k "wrap v" "kvs w"] by auto
  from h ok' np' have all: "fst (pg_getAll ?w) =
      Resolved \<lparr>own = map (\<lambda>(k, d). (k, prop_get d ''value'')) ?t, proto = ObjectPrototype\<rparr>"
    using pg_getAll_unwraps [of "w\<lparr>kvs := ?t\<rparr>"] by (simp add: w')
  from len have "map_of ?t k = Some (wrap v)"
    by (rule upsert_fn_lookup)
  then have "map_of (map (\<lambda>(k, d). (k, prop_get d ''value'')) ?t) k = Some (prop_get (wrap v) ''value'')"
    by (simp add: map_of_map)
  moreover have "prop_get (wrap v) ''value'' = v"
    by (cases v) (simp_all add: wrap_def)
  ultimately show ?thesis
    using all by simp
qed

text \<open>
  C8. The claim has \<open>getAll\<close> of the Postgres store map every key to its
  value. The envelope is taken off on both reads, but \<open>getAll\<close> assigns the
  unwrapped value to \<^verbatim>\<open>row.key\<close> on a fresh \<^verbatim>\<open>{}\<close>, as the memory store
  does: after \<open>upsert\<close> of the key \<^verbatim>\<open>__proto__\<close>, \<open>get\<close> resolves to the
  value and \<open>getAll\<close> resolves to an object with no property at all.
\<close>

theorem pg_getAll_loses_proto_key:
  "fst (pg_get ''__proto__''
      (snd (pg_upsert ''__proto__'' (Some (JArr [JNum 1, JNum 2, JNum 3]))
         \<lparr>kvs = [], fault = Healthy\<rparr>))) =
     Resolved (Some (JArr [JNum 1, JNum 2, JNum 3])) \<and>
   fst (pg_getAll
      (snd (pg_upsert ''__proto__'' (Some (JArr [JNum 1, JNum 2, JNum 3]))
         \<lparr>kvs = [], fault = Healthy\<rparr>))) =
     Resolved \<lparr>own = [], proto = ProtoOf (JArr [JNum 1, JNum 2, JNum 3])\<rparr> \<and>
   obj_keys \<lparr>own = [], proto = ProtoOf (JArr [JNum 1, JNum 2, JNum 3])\<rparr> = [] \<and>
   fst (route_get_all postgres_store \<lparr>params_id = [], body = JObj [], is_json = False\<rparr>
      (snd (pg_upsert ''__proto__'' (Some (JArr [JNum 1, JNum 2, JNum 3]))
         \<lparr>kvs = [], fault = Healthy\<rparr>))) =
     Sent 200 (Json (JObj []))"
  by (simp add: pg_getAll_def pg_get_def pg_upsert_def query_def upsert_fn_def sql_insert_def
      to_varchar_1024_def wrap_def as_rows_def empty_object_def obj_assign_def
      setter_visible_def obj_has_def obj_keys_def route_get_all_def postgres_store_def
      to_json_def)

end
